theory Spec2Isabelle
  imports Complex_Main "HOL-Library.Word"
begin

section \<open>The in-memory chunk ring of one metric (aggmetric.go)\<close>

text \<open>
  The Go struct \<^verbatim>\<open>AggMetric\<close> keeps a fixed array of compressed series
  (``chunks''), addressed cyclically by the chunk-aligned start of a timestamp.
  All counters are \<^verbatim>\<open>uint32\<close>: they are modelled as 32-bit words, so that
  \<open>-\<close> and \<open>*\<close> wrap around exactly as in the program.  The mutex is not
  modelled: every operation holds it from start to end, so the operations of one
  metric are sequential.  The \<^verbatim>\<open>fmt.Println\<close> calls only write to the
  standard output and are left out.
\<close>

type_synonym u32 = "32 word"

subsection \<open>The sequence codec\<close>

text \<open>
  \<^verbatim>\<open>tsz.Series\<close> is the external library go-tsz.  Only its contract is used:
  \<^verbatim>\<open>New(t0)\<close> makes an empty open series, \<^verbatim>\<open>Push\<close> appends one point,
  \<^verbatim>\<open>Finish\<close> seals it, and \<^verbatim>\<open>Iter\<close> yields the points pushed so far in
  the order they were pushed.  The sample value (a \<^verbatim>\<open>float64\<close>) is never
  inspected by the store, so it is a type parameter.
\<close>

record 'v Series =
  T0 :: u32
  points :: "(u32 \<times> 'v) list"
  finished :: bool

definition New :: "u32 \<Rightarrow> 'v Series" where
  "New t0 = \<lparr>T0 = t0, points = [], finished = False\<rparr>"

definition Push :: "u32 \<Rightarrow> 'v \<Rightarrow> 'v Series \<Rightarrow> 'v Series" where
  "Push t v s = s\<lparr>points := points s @ [(t, v)]\<rparr>"

definition Finish :: "'v Series \<Rightarrow> 'v Series" where
  "Finish s = s\<lparr>finished := True\<rparr>"

datatype 'v Iter = Iter u32 "(u32 \<times> 'v) list"

definition Series_Iter :: "'v Series \<Rightarrow> 'v Iter" where
  "Series_Iter s = Iter (T0 s) (points s)"

subsection \<open>Faults\<close>

text \<open>
  \<open>ErrInvalidRequest\<close> is the \<^verbatim>\<open>error\<close> value returned by \<^verbatim>\<open>GetUnsafe\<close>.
  All the others are panics: the three explicit ones of \<^verbatim>\<open>GetSafe\<close> and the
  run-time panics of Go (integer division by zero, index or slice bounds out of
  range, method call through a nil pointer).
\<close>

datatype fault =
    ErrInvalidRequest
  | PanicInvalidRequest
  | PanicTooOld
  | PanicNotYet
  | PanicDivideByZero
  | PanicIndex
  | PanicSlice
  | PanicNilDeref

fun is_panic :: "fault \<Rightarrow> bool" where
  "is_panic ErrInvalidRequest = False"
| "is_panic _ = True"

subsection \<open>The store\<close>

text \<open>
  The type \<^verbatim>\<open>Aggregator\<close> is not declared in this file of the program; it is the
  type parameter \<open>'g\<close>.  A slot of \<^verbatim>\<open>chunks\<close> is a pointer that may be nil:
  \<open>None\<close>.  Every series pointer is made by \<^verbatim>\<open>tsz.New\<close> and stored in one
  slot only, so a slot can hold the series itself.
\<close>

record ('g, 'v) AggMetric =
  key :: string
  lastTs :: u32
  firstStart :: u32
  lastStart :: u32
  numChunks :: u32
  chunkSpan :: u32
  chunks :: "'v Series option list"
  aggregators :: "'g list"

definition NewAggMetric :: "string \<Rightarrow> ('g, 'v) AggMetric" where
  "NewAggMetric k =
     \<lparr>key = k, lastTs = 0, firstStart = 0, lastStart = 0,
      numChunks = 5, chunkSpan = 60 * 2,
      chunks = replicate (unat (5 :: u32)) None, aggregators = []\<rparr>"

subsection \<open>Signalling\<close>

text \<open>
  A call \<^verbatim>\<open>agg.Signal(a, ts)\<close> is recorded as an event: the aggregator, the key
  of the metric it was called with, and the timestamp.  What an aggregator does
  with the signal is outside this program unit; the events of one call of
  \<^verbatim>\<open>Add\<close> are returned next to the new state.
\<close>

datatype 'g signal = Signal 'g string u32

fun signalAggregators_loop :: "string \<Rightarrow> u32 \<Rightarrow> 'g list \<Rightarrow> 'g signal list" where
  "signalAggregators_loop k ts [] = []"
| "signalAggregators_loop k ts (agg # aggs) = Signal agg k ts # signalAggregators_loop k ts aggs"

definition signalAggregators :: "('g, 'v) AggMetric \<Rightarrow> u32 \<Rightarrow> 'g signal list" where
  "signalAggregators a ts = signalAggregators_loop (key a) ts (aggregators a)"

subsection \<open>Ingestion\<close>

text \<open>
  \<^verbatim>\<open>Add\<close> returns the new store and the signals it sent, or the panic that
  stopped it.  Both branches after the first point start with a remainder by
  \<^verbatim>\<open>numChunks\<close>, so the test for zero stands before them.  A series is
  changed through the pointer in its slot: the slot is updated.
\<close>

definition Add ::
  "u32 \<Rightarrow> 'v \<Rightarrow> ('g, 'v) AggMetric \<Rightarrow> fault + (('g, 'v) AggMetric \<times> 'g signal list)" where
  "Add ts val a =
    (if ts \<le> lastTs a then Inr (a, [])
     else if chunkSpan a = 0 then Inl PanicDivideByZero
     else
       let start = ts - (ts mod chunkSpan a) in
       if firstStart a = 0 then
         (let a1 = a\<lparr>firstStart := start, lastStart := start\<rparr>;
              series = Push ts val (New start)
          in if length (chunks a1) = 0 then Inl PanicIndex
             else let a2 = a1\<lparr>chunks := (chunks a1)[0 := Some series]\<rparr>
                  in Inr (a2, signalAggregators a2 ts))
       else if numChunks a = 0 then Inl PanicDivideByZero
       else if start = lastStart a then
         (let index = ((start - firstStart a) div chunkSpan a) mod numChunks a in
          if \<not> unat index < length (chunks a) then Inl PanicIndex
          else case chunks a ! unat index of
                 None \<Rightarrow> Inl PanicNilDeref
               | Some s \<Rightarrow>
                   let a1 = a\<lparr>chunks := (chunks a)[unat index := Some (Push ts val s)]\<rparr>
                   in Inr (a1, signalAggregators a1 ts))
       else
         (let lastIndex = ((lastStart a - firstStart a) div chunkSpan a) mod numChunks a in
          if \<not> unat lastIndex < length (chunks a) then Inl PanicIndex
          else case chunks a ! unat lastIndex of
                 None \<Rightarrow> Inl PanicNilDeref
               | Some s \<Rightarrow>
                   let a1 = a\<lparr>chunks := (chunks a)[unat lastIndex := Some (Finish s)]\<rparr>;
                       series = Push ts val (New start);
                       newIndex = ((start - firstStart a1) div chunkSpan a1) mod numChunks a1
                   in if \<not> unat newIndex < length (chunks a1) then Inl PanicIndex
                      else let a2 = a1\<lparr>chunks := (chunks a1)[unat newIndex := Some series]\<rparr>
                           in Inr (a2, signalAggregators a2 ts)))"

subsection \<open>Range reads\<close>

text \<open>The loop \<^verbatim>\<open>for i := first; i < a.numChunks; i++\<close> of \<^verbatim>\<open>get\<close>.\<close>

function loop_end ::
  "'v Series option list \<Rightarrow> u32 \<Rightarrow> u32 \<Rightarrow> 'v Series option list \<Rightarrow> fault + 'v Series option list" where
  "loop_end cs i n data =
     (if i < n then
        (if unat i < length cs then loop_end cs (i + 1) n (data @ [cs ! unat i])
         else Inl PanicIndex)
      else Inr data)"
  by pat_completeness auto
termination
proof (relation "measure (\<lambda>(cs, i, n, data). unat n - unat i)")
  show "wf (measure (\<lambda>(cs, i, n, data). unat n - unat i))" by simp
next
  fix cs :: "'v Series option list" and i n :: u32 and data :: "'v Series option list"
  assume lt: "i < n"
  then have "unat i < unat n" by (simp add: word_less_nat_alt)
  moreover from lt have "unat (i + 1) = unat i + 1"
    by unat_arith
  ultimately show "((cs, i + 1, n, data @ [cs ! unat i]), (cs, i, n, data))
      \<in> measure (\<lambda>(cs, i, n, data). unat n - unat i)"
    by simp
qed

declare loop_end.simps [simp del]

text \<open>
  The loop \<^verbatim>\<open>for i := uint32(0); i <= last; i++\<close> of \<^verbatim>\<open>get\<close>.  For
  a bound of \<open>2^32 - 1\<close> the counter wraps and the guard never fails, so the loop is a
  partial function: \<open>None\<close> is ``does not return''.
\<close>

partial_function (option) loop_begin ::
  "'v Series option list \<Rightarrow> u32 \<Rightarrow> u32 \<Rightarrow> 'v Series option list
     \<Rightarrow> (fault + 'v Series option list) option" where
  "loop_begin cs i lst data =
     (if i \<le> lst then
        (if unat i < length cs then loop_begin cs (i + 1) lst (data @ [cs ! unat i])
         else Some (Inl PanicIndex))
      else Some (Inr data))"

declare loop_begin.simps [code]

text \<open>The loop \<^verbatim>\<open>for _, chunk := range data\<close> of \<^verbatim>\<open>get\<close>.\<close>

fun iters_loop :: "'v Series option list \<Rightarrow> 'v Iter list \<Rightarrow> 'v Iter list" where
  "iters_loop [] iters = iters"
| "iters_loop (None # data) iters = iters_loop data iters"
| "iters_loop (Some chunk # data) iters = iters_loop data (iters @ [Series_Iter chunk])"

text \<open>
  \<^verbatim>\<open>a.chunks[first : last+1]\<close> panics unless \<open>first \<le> last + 1 \<le> cap\<close>; the
  array was made with \<^verbatim>\<open>make([]*tsz.Series, numChunks)\<close>, so its capacity is
  its length.  The capacity hints of the two \<^verbatim>\<open>make\<close> calls do not change
  any value.
\<close>

definition get ::
  "('g, 'v) AggMetric \<Rightarrow> u32 \<Rightarrow> u32 \<Rightarrow> (fault + 'v Iter list) option" where
  "get a firstStart' lastStart' =
    (if chunkSpan a = 0 \<or> numChunks a = 0 then Some (Inl PanicDivideByZero)
     else
       let first = ((firstStart' - firstStart a) div chunkSpan a) mod numChunks a;
           last = ((lastStart' - firstStart a) div chunkSpan a) mod numChunks a
       in if last \<ge> first then
            (if unat (last + 1) > length (chunks a) \<or> unat first > unat (last + 1)
             then Some (Inl PanicSlice)
             else Some (Inr (iters_loop
                    (take (unat (last + 1) - unat first) (drop (unat first) (chunks a))) [])))
          else
            (case loop_end (chunks a) first (numChunks a) [] of
               Inl e \<Rightarrow> Some (Inl e)
             | Inr data \<Rightarrow>
                 (case loop_begin (chunks a) 0 last data of
                    None \<Rightarrow> None
                  | Some (Inl e) \<Rightarrow> Some (Inl e)
                  | Some (Inr data') \<Rightarrow> Some (Inr (iters_loop data' [])))))"

text \<open>
  The values of the locals \<^verbatim>\<open>firstStart\<close> and \<^verbatim>\<open>lastStart\<close> of
  \<^verbatim>\<open>GetUnsafe\<close> when it calls \<^verbatim>\<open>get\<close> (lines 58 to 65), for a nonzero
  \<^verbatim>\<open>chunkSpan\<close>.
\<close>

definition GetUnsafe_window :: "('g, 'v) AggMetric \<Rightarrow> u32 \<Rightarrow> u32 \<Rightarrow> u32 \<times> u32" where
  "GetUnsafe_window a from to =
     (let firstStart0 = from - (from mod chunkSpan a);
          lastStart0 = (to - 1) - ((to - 1) mod chunkSpan a);
          firstStart1 = (if firstStart0 < lastStart a - numChunks a * chunkSpan a
                         then lastStart a - numChunks a * chunkSpan a else firstStart0);
          lastStart1 = (if lastStart0 > lastStart a then lastStart a else lastStart0)
      in (firstStart1, lastStart1))"

definition GetUnsafe ::
  "('g, 'v) AggMetric \<Rightarrow> u32 \<Rightarrow> u32 \<Rightarrow> (fault + 'v Iter list) option" where
  "GetUnsafe a from to =
    (if from \<ge> to then Some (Inl ErrInvalidRequest)
     else if chunkSpan a = 0 then Some (Inl PanicDivideByZero)
     else get a (fst (GetUnsafe_window a from to)) (snd (GetUnsafe_window a from to)))"

definition GetSafe ::
  "('g, 'v) AggMetric \<Rightarrow> u32 \<Rightarrow> u32 \<Rightarrow> (fault + 'v Iter list) option" where
  "GetSafe a from to =
    (if from \<ge> to then Some (Inl PanicInvalidRequest)
     else if chunkSpan a = 0 then Some (Inl PanicDivideByZero)
     else
       let firstStart0 = from - (from mod chunkSpan a);
           lastStart0 = (to - 1) - ((to - 1) mod chunkSpan a)
       in if firstStart0 < lastStart a - numChunks a * chunkSpan a then Some (Inl PanicTooOld)
          else if lastStart0 > lastStart a then Some (Inl PanicNotYet)
          else get a firstStart0 lastStart0)"

subsection \<open>The result of \<open>get\<close> in closed form\<close>

text \<open>
  The values of the locals \<^verbatim>\<open>first\<close> and \<^verbatim>\<open>last\<close> of \<^verbatim>\<open>get\<close> (lines 95
  and 96, in \<^verbatim>\<open>uint32\<close>) as indices, the list \<^verbatim>\<open>data\<close> that its two branches
  build, and the iterators it returns.  The lemmas on the read path prove that
  \<open>get\<close> computes them.
\<close>

definition get_slot :: "('g, 'v) AggMetric \<Rightarrow> u32 \<Rightarrow> nat" where
  "get_slot a s = unat (((s - firstStart a) div chunkSpan a) mod numChunks a)"

definition get_data :: "('g, 'v) AggMetric \<Rightarrow> u32 \<Rightarrow> u32 \<Rightarrow> 'v Series option list" where
  "get_data a f l =
     (let firstSlot = get_slot a f; lastSlot = get_slot a l
      in if lastSlot \<ge> firstSlot
         then map (\<lambda>k. chunks a ! k) [firstSlot ..< Suc lastSlot]
         else map (\<lambda>k. chunks a ! k) [firstSlot ..< unat (numChunks a)]
              @ map (\<lambda>k. chunks a ! k) [0 ..< Suc lastSlot])"

definition get_iters :: "('g, 'v) AggMetric \<Rightarrow> u32 \<Rightarrow> u32 \<Rightarrow> 'v Iter list" where
  "get_iters a f l =
     map (\<lambda>c. Series_Iter (the c)) (filter (\<lambda>c. c \<noteq> None) (get_data a f l))"

subsection \<open>Slot selection as the specification words it\<close>

text \<open>
  The slot of an aligned start \<open>s\<close> is \<open>((s - firstStart) / chunkSpan) mod numChunks\<close>,
  over the integers: a start before \<open>firstStart\<close> has a negative distance, and
  \<open>mod\<close> brings it back into the ring.  The candidates of a read are the inclusive
  run \<open>chunks[firstSlot..lastSlot]\<close>, or the run from \<open>firstSlot\<close> to the end of the
  array followed by the run from its beginning to \<open>lastSlot\<close>; the result is one
  iterator for each candidate that is not empty, in the order of the candidates.
\<close>

definition Select_slot :: "('g, 'v) AggMetric \<Rightarrow> u32 \<Rightarrow> nat" where
  "Select_slot a s =
     nat (((uint s - uint (firstStart a)) div uint (chunkSpan a)) mod uint (numChunks a))"

definition Select_candidates :: "('g, 'v) AggMetric \<Rightarrow> u32 \<Rightarrow> u32 \<Rightarrow> 'v Series option list" where
  "Select_candidates a f l =
     (let firstSlot = Select_slot a f; lastSlot = Select_slot a l
      in if lastSlot \<ge> firstSlot
         then map (\<lambda>k. chunks a ! k) [firstSlot ..< Suc lastSlot]
         else map (\<lambda>k. chunks a ! k) [firstSlot ..< unat (numChunks a)]
              @ map (\<lambda>k. chunks a ! k) [0 ..< Suc lastSlot])"

definition Select :: "('g, 'v) AggMetric \<Rightarrow> u32 \<Rightarrow> u32 \<Rightarrow> 'v Iter list" where
  "Select a f l =
     map (\<lambda>c. Series_Iter (the c)) (filter (\<lambda>c. c \<noteq> None) (Select_candidates a f l))"

subsection \<open>Reachable stores\<close>

text \<open>
  A store is reachable when it is built by \<^verbatim>\<open>NewAggMetric\<close> and then changed by
  calls of \<^verbatim>\<open>Add\<close> that return.  No function of aggmetric.go assigns the field
  \<^verbatim>\<open>aggregators\<close>: the rest of the package does, so any assignment of that
  field is a step as well.  The two reads do not change the store.
\<close>

inductive reachable :: "('g, 'v) AggMetric \<Rightarrow> bool" where
  init: "reachable (NewAggMetric k)"
| attach: "reachable a \<Longrightarrow> reachable (a\<lparr>aggregators := aggs\<rparr>)"
| add: "reachable a \<Longrightarrow> Add ts v a = Inr (a', sigs) \<Longrightarrow> reachable a'"

text \<open>
  What \<^verbatim>\<open>Add\<close> and the reads rely on: the constants of the constructor, an array
  of five slots, and, once \<open>firstStart\<close> is set, a chunk in slot 0, which is the slot
  of \<open>lastStart\<close>.
\<close>

definition store_inv :: "('g, 'v) AggMetric \<Rightarrow> bool" where
  "store_inv a \<longleftrightarrow>
     chunkSpan a = 120 \<and> numChunks a = 5 \<and> length (chunks a) = 5 \<and>
     (firstStart a \<noteq> 0 \<longrightarrow> lastStart a = firstStart a \<and> chunks a ! 0 \<noteq> None)"

subsection \<open>The read window over the integers\<close>

text \<open>
  The window of a checked read as the specification words it, with the maximum and
  the minimum taken over the integers, and the condition under which the
  specification lets a trusted read fault.
\<close>

definition ReadChecked_window_spec :: "('g, 'v) AggMetric \<Rightarrow> u32 \<Rightarrow> u32 \<Rightarrow> int \<times> int" where
  "ReadChecked_window_spec a from to =
     (max (uint from - uint from mod uint (chunkSpan a))
          (uint (lastStart a) - uint (numChunks a) * uint (chunkSpan a)),
      min ((uint to - 1) - (uint to - 1) mod uint (chunkSpan a))
          (uint (lastStart a)))"

definition ReadTrusted_faults_spec :: "('g, 'v) AggMetric \<Rightarrow> u32 \<Rightarrow> u32 \<Rightarrow> bool" where
  "ReadTrusted_faults_spec a from to \<longleftrightarrow>
     uint from \<ge> uint to
     \<or> uint from - uint from mod uint (chunkSpan a)
         < uint (lastStart a) - uint (numChunks a) * uint (chunkSpan a)
     \<or> (uint to - 1) - (uint to - 1) mod uint (chunkSpan a) > uint (lastStart a)"

fun is_fault :: "(fault + 'a) option \<Rightarrow> bool" where
  "is_fault (Some (Inl f)) = is_panic f"
| "is_fault _ = False"

subsection \<open>Example stores\<close>

text \<open>
  A store as \<^verbatim>\<open>NewAggMetric\<close> builds it, with two aggregators attached, and the
  stores that the calls of \<^verbatim>\<open>Add\<close> in the examples below lead to.
\<close>

definition store0 :: "(nat, real) AggMetric" where
  "store0 = \<lparr>key = ''m'', lastTs = 0, firstStart = 0, lastStart = 0, numChunks = 5,
      chunkSpan = 120, chunks = [None, None, None, None, None], aggregators = [1, 2]\<rparr>"

definition store_100 :: "(nat, real) AggMetric" where
  "store_100 = \<lparr>key = ''m'', lastTs = 0, firstStart = 0, lastStart = 0, numChunks = 5,
      chunkSpan = 120,
      chunks = [Some \<lparr>T0 = 0, points = [(100, 1)], finished = False\<rparr>,
                None, None, None, None],
      aggregators = [1, 2]\<rparr>"

definition store_100_130 :: "(nat, real) AggMetric" where
  "store_100_130 = \<lparr>key = ''m'', lastTs = 0, firstStart = 120, lastStart = 120,
      numChunks = 5, chunkSpan = 120,
      chunks = [Some \<lparr>T0 = 120, points = [(130, 2)], finished = False\<rparr>,
                None, None, None, None],
      aggregators = [1, 2]\<rparr>"

definition store_130 :: "(nat, real) AggMetric" where
  "store_130 = \<lparr>key = ''m'', lastTs = 0, firstStart = 120, lastStart = 120,
      numChunks = 5, chunkSpan = 120,
      chunks = [Some \<lparr>T0 = 120, points = [(130, 1)], finished = False\<rparr>,
                None, None, None, None],
      aggregators = [1, 2]\<rparr>"

definition store_130_250 :: "(nat, real) AggMetric" where
  "store_130_250 = \<lparr>key = ''m'', lastTs = 0, firstStart = 120, lastStart = 120,
      numChunks = 5, chunkSpan = 120,
      chunks = [Some \<lparr>T0 = 120, points = [(130, 1)], finished = True\<rparr>,
                Some \<lparr>T0 = 240, points = [(250, 2)], finished = False\<rparr>,
                None, None, None],
      aggregators = [1, 2]\<rparr>"

definition store_130_125 :: "(nat, real) AggMetric" where
  "store_130_125 = \<lparr>key = ''m'', lastTs = 0, firstStart = 120, lastStart = 120,
      numChunks = 5, chunkSpan = 120,
      chunks = [Some \<lparr>T0 = 120, points = [(130, 1), (125, 2)], finished = False\<rparr>,
                None, None, None, None],
      aggregators = [1, 2]\<rparr>"

definition store_130_601 :: "(nat, real) AggMetric" where
  "store_130_601 = \<lparr>key = ''m'', lastTs = 0, firstStart = 120, lastStart = 120,
      numChunks = 5, chunkSpan = 120,
      chunks = [Some \<lparr>T0 = 120, points = [(130, 1)], finished = True\<rparr>,
                None, None, None,
                Some \<lparr>T0 = 600, points = [(601, 2)], finished = False\<rparr>],
      aggregators = [1, 2]\<rparr>"

definition store_130_130 :: "(nat, real) AggMetric" where
  "store_130_130 = \<lparr>key = ''m'', lastTs = 0, firstStart = 120, lastStart = 120,
      numChunks = 5, chunkSpan = 120,
      chunks = [Some \<lparr>T0 = 120, points = [(130, 1), (130, 1)], finished = False\<rparr>,
                None, None, None, None],
      aggregators = [1, 2]\<rparr>"

definition store_601 :: "(nat, real) AggMetric" where
  "store_601 = \<lparr>key = ''m'', lastTs = 0, firstStart = 600, lastStart = 600,
      numChunks = 5, chunkSpan = 120,
      chunks = [Some \<lparr>T0 = 600, points = [(601, 1)], finished = False\<rparr>,
                None, None, None, None],
      aggregators = [1, 2]\<rparr>"

definition store_601_1081 :: "(nat, real) AggMetric" where
  "store_601_1081 = \<lparr>key = ''m'', lastTs = 0, firstStart = 600, lastStart = 600,
      numChunks = 5, chunkSpan = 120,
      chunks = [Some \<lparr>T0 = 600, points = [(601, 1)], finished = True\<rparr>,
                None, None, None,
                Some \<lparr>T0 = 1080, points = [(1081, 2)], finished = False\<rparr>],
      aggregators = [1, 2]\<rparr>"

section \<open>Properties of the loops\<close>


lemma signalAggregators_loop_map:
  "signalAggregators_loop k ts gs = map (\<lambda>g. Signal g k ts) gs"
  by (induction gs) simp_all

lemma iters_loop_filter:
  "iters_loop data iters = iters @ map (Series_Iter \<circ> the) (filter (\<lambda>c. c \<noteq> None) data)"
  by (induction data iters rule: iters_loop.induct) simp_all

lemma loop_end_take_drop:
  "unat n \<le> length cs \<Longrightarrow>
   loop_end cs i n data = Inr (data @ take (unat n - unat i) (drop (unat i) cs))"
proof (induction cs i n data rule: loop_end.induct)
  case (1 cs i n data)
  show ?case
  proof (cases "i < n")
    case False
    then have "unat n - unat i = 0" by (simp add: word_less_nat_alt)
    with False show ?thesis by (subst loop_end.simps) simp
  next
    case True
    then have lt: "unat i < unat n" by (simp add: word_less_nat_alt)
    with "1.prems" have inb: "unat i < length cs" by simp
    from True have suc: "unat (i + 1) = Suc (unat i)" by unat_arith
    have split: "take (unat n - unat i) (drop (unat i) cs)
        = cs ! unat i # take (unat n - Suc (unat i)) (drop (Suc (unat i)) cs)"
      using lt inb by (metis Cons_nth_drop_Suc Suc_diff_Suc take_Suc_Cons)
    have "loop_end cs i n data = loop_end cs (i + 1) n (data @ [cs ! unat i])"
      using True inb by (subst loop_end.simps) simp
    also have "\<dots> = Inr ((data @ [cs ! unat i]) @ take (unat n - unat (i + 1)) (drop (unat (i + 1)) cs))"
      using "1.IH" [OF True inb "1.prems"] .
    finally show ?thesis by (simp add: suc split)
  qed
qed

lemma loop_begin_take_drop:
  "unat lst < length cs \<Longrightarrow> unat i \<le> Suc (unat lst) \<Longrightarrow> Suc (unat lst) - unat i = k \<Longrightarrow>
   Suc (unat lst) < 2 ^ 32 \<Longrightarrow>
   loop_begin cs i lst data = Some (Inr (data @ take k (drop (unat i) cs)))"
proof (induction k arbitrary: i data)
  case 0
  then have "unat i = Suc (unat lst)" by simp
  then have "\<not> i \<le> lst" by (simp add: word_le_nat_alt)
  then show ?case by (subst loop_begin.simps) simp
next
  case (Suc k)
  then have le: "unat i \<le> unat lst" by simp
  then have ile: "i \<le> lst" by (simp add: word_le_nat_alt)
  from le Suc.prems have inb: "unat i < length cs" by simp
  have "unat i + 1 < 2 ^ 32" using le Suc.prems(4) by simp
  then have suc: "unat (i + 1) = Suc (unat i)"
    by (simp add: unat_word_ariths)
  have split: "take (Suc k) (drop (unat i) cs) = cs ! unat i # take k (drop (Suc (unat i)) cs)"
    using inb by (metis Cons_nth_drop_Suc take_Suc_Cons)
  have "loop_begin cs i lst data = loop_begin cs (i + 1) lst (data @ [cs ! unat i])"
    using ile inb by (subst loop_begin.simps) simp
  also have "\<dots> = Some (Inr ((data @ [cs ! unat i]) @ take k (drop (unat (i + 1)) cs)))"
    using Suc.prems le by (intro Suc.IH) (simp_all add: suc)
  finally show ?case by (simp add: suc split)
qed

section \<open>The read path and the slot selection\<close>

lemma take_drop_nths:
  "j \<le> length cs \<Longrightarrow> take (j - i) (drop i cs) = map (\<lambda>k. cs ! k) [i ..< j]"
  by (rule sym, rule map_upt_eqI) auto

lemma get_slot_less:
  "numChunks a \<noteq> 0 \<Longrightarrow> get_slot a s < unat (numChunks a)"
  unfolding get_slot_def
  by (simp add: word_less_nat_alt [symmetric] word_mod_less_divisor word_neq_0_conv [symmetric])

lemma get_slot_nat:
  assumes "firstStart a \<le> s"
  shows "get_slot a s
       = ((unat s - unat (firstStart a)) div unat (chunkSpan a)) mod unat (numChunks a)"
  using assms unfolding get_slot_def
  by (simp add: unat_mod unat_div unat_sub)

lemma get_closed_form:
  assumes span: "chunkSpan a \<noteq> 0" and num: "numChunks a \<noteq> 0"
    and len: "length (chunks a) = unat (numChunks a)"
  shows "get a f l = Some (Inr (get_iters a f l))"
proof -
  define first where "first = ((f - firstStart a) div chunkSpan a) mod numChunks a"
  define lst where "lst = ((l - firstStart a) div chunkSpan a) mod numChunks a"
  have sf: "get_slot a f = unat first" and sl: "get_slot a l = unat lst"
    by (simp_all add: get_slot_def first_def lst_def)
  have fb: "unat first < unat (numChunks a)" and lb: "unat lst < unat (numChunks a)"
    using get_slot_less [OF num] by (simp_all add: sf [symmetric] sl [symmetric])
  have "unat (numChunks a) < 2 ^ 32" using unsigned_less [of "numChunks a"] by simp
  with lb have small: "Suc (unat lst) < 2 ^ 32" by simp
  then have suc: "unat (lst + 1) = Suc (unat lst)" by (simp add: unat_word_ariths)
  have unfold: "get a f l =
      (if lst \<ge> first then
            (if unat (lst + 1) > length (chunks a) \<or> unat first > unat (lst + 1)
             then Some (Inl PanicSlice)
             else Some (Inr (iters_loop
                    (take (unat (lst + 1) - unat first) (drop (unat first) (chunks a))) [])))
          else
            (case loop_end (chunks a) first (numChunks a) [] of
               Inl e \<Rightarrow> Some (Inl e)
             | Inr data \<Rightarrow>
                 (case loop_begin (chunks a) 0 lst data of
                    None \<Rightarrow> None
                  | Some (Inl e) \<Rightarrow> Some (Inl e)
                  | Some (Inr data') \<Rightarrow> Some (Inr (iters_loop data' [])))))"
    unfolding get_def Let_def first_def lst_def using span num by simp
  show ?thesis
  proof (cases "lst \<ge> first")
    case True
    then have le: "unat first \<le> unat lst" by (simp add: word_le_nat_alt)
    have cand: "get_data a f l = map (\<lambda>k. chunks a ! k) [unat first ..< Suc (unat lst)]"
      using le by (simp add: get_data_def Let_def sf sl del: upt_Suc)
    have tk: "take (Suc (unat lst) - unat first) (drop (unat first) (chunks a))
        = map (\<lambda>k. chunks a ! k) [unat first ..< Suc (unat lst)]"
      using lb len by (intro take_drop_nths) simp
    have "get a f l = Some (Inr (iters_loop (map (\<lambda>k. chunks a ! k) [unat first ..< Suc (unat lst)]) []))"
      using True le lb len by (simp add: unfold suc tk del: upt_Suc)
    then show ?thesis
      by (simp add: get_iters_def cand iters_loop_filter comp_def del: upt_Suc)
  next
    case False
    then have gt: "\<not> unat first \<le> unat lst" by (simp add: word_le_nat_alt)
    have cand: "get_data a f l
        = map (\<lambda>k. chunks a ! k) [unat first ..< unat (numChunks a)]
          @ map (\<lambda>k. chunks a ! k) [0 ..< Suc (unat lst)]"
      using gt by (simp add: get_data_def Let_def sf sl del: upt_Suc)
    have "take (unat (numChunks a) - unat first) (drop (unat first) (chunks a))
        = map (\<lambda>k. chunks a ! k) [unat first ..< unat (numChunks a)]"
      using len by (intro take_drop_nths) simp
    then have e: "loop_end (chunks a) first (numChunks a) []
        = Inr (map (\<lambda>k. chunks a ! k) [unat first ..< unat (numChunks a)])"
      using len by (simp add: loop_end_take_drop del: upt_Suc)
    have "take (Suc (unat lst) - 0) (drop 0 (chunks a))
        = map (\<lambda>k. chunks a ! k) [0 ..< Suc (unat lst)]"
      using lb len by (intro take_drop_nths) simp
    then have b: "loop_begin (chunks a) 0 lst data
        = Some (Inr (data @ map (\<lambda>k. chunks a ! k) [0 ..< Suc (unat lst)]))" for data
      using loop_begin_take_drop [of lst "chunks a" 0 "Suc (unat lst)" data] lb len small
      by (simp del: upt_Suc)
    have "get a f l = Some (Inr (iters_loop
        (map (\<lambda>k. chunks a ! k) [unat first ..< unat (numChunks a)]
          @ map (\<lambda>k. chunks a ! k) [0 ..< Suc (unat lst)]) []))"
      using False by (simp add: unfold e b del: upt_Suc)
    then show ?thesis
      by (simp add: get_iters_def cand iters_loop_filter comp_def del: upt_Suc)
  qed
qed

text \<open>
  Where the code and the formula agree: for a start that is not before
  \<open>firstStart\<close> the subtraction does not wrap.
\<close>

lemma get_slot_Select_slot:
  assumes "firstStart a \<le> s"
  shows "get_slot a s = Select_slot a s"
proof -
  from assms have "uint (s - firstStart a) = uint s - uint (firstStart a)"
    by (simp add: uint_minus_simple_alt)
  then show ?thesis
    by (simp add: get_slot_def Select_slot_def unat_eq_nat_uint uint_div uint_mod)
qed

lemma get_Select_from_firstStart:
  assumes "chunkSpan a \<noteq> 0" and "numChunks a \<noteq> 0"
    and "length (chunks a) = unat (numChunks a)"
    and "firstStart a \<le> f" and "firstStart a \<le> l"
  shows "get a f l = Some (Inr (Select a f l))"
  using assms
  by (simp add: get_closed_form get_iters_def get_data_def Select_def Select_candidates_def
      get_slot_Select_slot)

section \<open>The invariant of reachable stores\<close>

lemma signalAggregators_map:
  "signalAggregators a ts = map (\<lambda>g. Signal g (key a) ts) (aggregators a)"
  by (simp add: signalAggregators_def signalAggregators_loop_map)

lemma unat_mod_5: "unat ((x :: u32) mod 5) < 5"
  using word_mod_less_divisor [of 5 x] by (simp add: word_less_nat_alt)

lemma store_inv_New: "store_inv (NewAggMetric k)"
  by (simp add: store_inv_def NewAggMetric_def)

lemma Add_rejected: "ts \<le> lastTs a \<Longrightarrow> Add ts v a = Inr (a, [])"
  by (simp add: Add_def)

lemma Add_first:
  assumes "store_inv a" "\<not> ts \<le> lastTs a" "firstStart a = 0"
  shows "Add ts v a = Inr (a\<lparr>firstStart := ts - ts mod 120, lastStart := ts - ts mod 120,
            chunks := (chunks a)[0 := Some (Push ts v (New (ts - ts mod 120)))]\<rparr>,
          map (\<lambda>g. Signal g (key a) ts) (aggregators a))"
  using assms by (auto simp add: Add_def store_inv_def Let_def signalAggregators_map)

lemma Add_same:
  assumes "store_inv a" "\<not> ts \<le> lastTs a" "firstStart a \<noteq> 0" "ts - ts mod 120 = lastStart a"
  shows "\<exists>s. chunks a ! 0 = Some s \<and>
     Add ts v a = Inr (a\<lparr>chunks := (chunks a)[0 := Some (Push ts v s)]\<rparr>,
          map (\<lambda>g. Signal g (key a) ts) (aggregators a))"
  using assms by (auto simp add: Add_def store_inv_def Let_def signalAggregators_map)

lemma Add_new:
  assumes "store_inv a" "\<not> ts \<le> lastTs a" "firstStart a \<noteq> 0" "ts - ts mod 120 \<noteq> lastStart a"
  shows "\<exists>s. chunks a ! 0 = Some s \<and>
     Add ts v a = Inr (a\<lparr>chunks := (chunks a)[0 := Some (Finish s),
              unat (((ts - ts mod 120 - firstStart a) div 120) mod 5)
                 := Some (Push ts v (New (ts - ts mod 120)))]\<rparr>,
          map (\<lambda>g. Signal g (key a) ts) (aggregators a))"
  using assms unat_mod_5 [of "(ts - ts mod 120 - firstStart a) div 120"]
  by (auto simp add: Add_def store_inv_def Let_def signalAggregators_map)

lemma Add_store_inv:
  assumes inv: "store_inv a"
  shows "\<exists>a'. Add ts v a = Inr (a', if ts \<le> lastTs a then []
                  else map (\<lambda>g. Signal g (key a) ts) (aggregators a))
            \<and> store_inv a' \<and> key a' = key a \<and> aggregators a' = aggregators a"
proof (cases "ts \<le> lastTs a")
  case True
  with inv show ?thesis by (simp add: Add_rejected)
next
  case rej: False
  show ?thesis
  proof (cases "firstStart a = 0")
    case True
    from Add_first [OF inv rej True, of v] inv rej show ?thesis
      by (simp add: store_inv_def)
  next
    case nz: False
    show ?thesis
    proof (cases "ts - ts mod 120 = lastStart a")
      case True
      from Add_same [OF inv rej nz True, of v] inv rej show ?thesis
        by (auto simp add: store_inv_def)
    next
      case False
      from Add_new [OF inv rej nz False, of v] inv rej
        unat_mod_5 [of "(ts - ts mod 120 - firstStart a) div 120"]
      show ?thesis
        by (auto simp add: store_inv_def nth_list_update)
    qed
  qed
qed

lemma reachable_store_inv: "reachable a \<Longrightarrow> store_inv a"
proof (induction rule: reachable.induct)
  case (init k)
  show ?case by (rule store_inv_New)
next
  case (attach a aggs)
  then show ?case by (simp add: store_inv_def)
next
  case (add a ts v a' sigs)
  with Add_store_inv [of a ts v] show ?case by auto
qed

lemma get_iters_length:
  assumes "numChunks a \<noteq> 0"
  shows "length (get_iters a f l) \<le> unat (numChunks a)"
proof -
  have "length (get_iters a f l) \<le> length (get_data a f l)"
    by (simp add: get_iters_def)
  also have "\<dots> \<le> unat (numChunks a)"
    using get_slot_less [OF assms, of f] get_slot_less [OF assms, of l]
    by (auto simp add: get_data_def Let_def simp del: upt_Suc)
  finally show ?thesis .
qed

lemma GetUnsafe_closed_form:
  assumes "store_inv a" "from < to"
  shows "GetUnsafe a from to
       = Some (Inr (get_iters a (fst (GetUnsafe_window a from to)) (snd (GetUnsafe_window a from to))))"
proof -
  from assms(1) have "chunkSpan a \<noteq> 0" "numChunks a \<noteq> 0" "length (chunks a) = unat (numChunks a)"
    by (simp_all add: store_inv_def)
  then show ?thesis
    using assms(2) by (simp add: GetUnsafe_def get_closed_form)
qed

subsection \<open>The example stores\<close>

lemma store0_New: "store0 = (NewAggMetric ''m'')\<lparr>aggregators := [1, 2]\<rparr>"
  by code_simp

lemma reachable_store0: "reachable store0"
  unfolding store0_New by (rule reachable.attach [OF reachable.init])

lemma Add_store0_100:
  "Add 100 1 store0 = Inr (store_100, [Signal 1 ''m'' 100, Signal 2 ''m'' 100])"
  by (simp add: Add_def store0_def store_100_def signalAggregators_def New_def Push_def Let_def)

lemma Add_store_100_130:
  "Add 130 2 store_100 = Inr (store_100_130, [Signal 1 ''m'' 130, Signal 2 ''m'' 130])"
  by (simp add: Add_def store_100_def store_100_130_def signalAggregators_def New_def Push_def
      Let_def)

lemma Add_store0_130:
  "Add 130 1 store0 = Inr (store_130, [Signal 1 ''m'' 130, Signal 2 ''m'' 130])"
  by (simp add: Add_def store0_def store_130_def signalAggregators_def New_def Push_def Let_def)

lemma Add_store_130_250:
  "Add 250 2 store_130 = Inr (store_130_250, [Signal 1 ''m'' 250, Signal 2 ''m'' 250])"
  by (simp add: Add_def store_130_def store_130_250_def signalAggregators_def New_def Push_def
      Finish_def Let_def)

lemma Add_store_130_125:
  "Add 125 2 store_130 = Inr (store_130_125, [Signal 1 ''m'' 125, Signal 2 ''m'' 125])"
  by (simp add: Add_def store_130_def store_130_125_def signalAggregators_def New_def Push_def
      Finish_def Let_def)

lemma Add_store_130_601:
  "Add 601 2 store_130 = Inr (store_130_601, [Signal 1 ''m'' 601, Signal 2 ''m'' 601])"
  by (simp add: Add_def store_130_def store_130_601_def signalAggregators_def New_def Push_def
      Finish_def Let_def)

lemma Add_store_130_130:
  "Add 130 1 store_130 = Inr (store_130_130, [Signal 1 ''m'' 130, Signal 2 ''m'' 130])"
  by (simp add: Add_def store_130_def store_130_130_def signalAggregators_def New_def Push_def
      Finish_def Let_def)

lemma Add_store0_601:
  "Add 601 1 store0 = Inr (store_601, [Signal 1 ''m'' 601, Signal 2 ''m'' 601])"
  by (simp add: Add_def store0_def store_601_def signalAggregators_def New_def Push_def Let_def)

lemma Add_store_601_1081:
  "Add 1081 2 store_601 = Inr (store_601_1081, [Signal 1 ''m'' 1081, Signal 2 ''m'' 1081])"
  by (simp add: Add_def store_601_def store_601_1081_def signalAggregators_def New_def Push_def
      Finish_def Let_def)

lemma reachable_store_130: "reachable store_130"
  by (rule reachable.add [OF reachable_store0 Add_store0_130])

lemma reachable_store_130_601: "reachable store_130_601"
  by (rule reachable.add [OF reachable_store_130 Add_store_130_601])

section \<open>The claims\<close>

text \<open>
  C1 (as amended).  On the store with \<open>chunkSpan = 120\<close> and \<open>numChunks = 5\<close>,
  \<open>Add 100 1.0\<close> opens the first chunk at aligned start 0 in slot 0, holding the
  point \<open>(100, 1.0)\<close>.  After \<open>Add 130 2.0\<close> the trusted read \<open>GetSafe 0 250\<close>
  does not return iterators: it faults.  (The aligned start of \<open>250 - 1\<close> is 240,
  later than any chunk start the store has seen.)
\<close>

theorem scenario_trusted_read_faults:
  "Add 100 1 store0 = Inr (store_100, [Signal 1 ''m'' 100, Signal 2 ''m'' 100])
   \<and> chunks store_100 ! 0 = Some \<lparr>T0 = 0, points = [(100, 1)], finished = False\<rparr>
   \<and> Add 130 2 store_100 = Inr (store_100_130, [Signal 1 ''m'' 130, Signal 2 ''m'' 130])
   \<and> is_fault (GetSafe store_100_130 0 250)"
proof -
  have "GetSafe store_100_130 0 250 = Some (Inl PanicTooOld)" by code_simp
  then show ?thesis
    by (simp add: Add_store0_100 Add_store_100_130) (simp add: store_100_def)
qed

text \<open>
  C1 as stated fails: after the two calls of \<open>Add\<close> the trusted read of \<open>[0, 250)\<close> is
  not the two iterators of the chunks with start 0 and start 120.
\<close>

theorem scenario_trusted_read_counterexample:
  "Add 100 1 store0 = Inr (store_100, [Signal 1 ''m'' 100, Signal 2 ''m'' 100])
   \<and> Add 130 2 store_100 = Inr (store_100_130, [Signal 1 ''m'' 130, Signal 2 ''m'' 130])
   \<and> GetSafe store_100_130 0 250 \<noteq> Some (Inr [Iter 0 [(100, 1)], Iter 120 [(130, 2)]])"
proof -
  have "GetSafe store_100_130 0 250 = Some (Inl PanicTooOld)" by code_simp
  then show ?thesis
    by (simp add: Add_store0_100 Add_store_100_130)
qed

text \<open>
  C2 (the code at the failing input).  \<open>Add 250 2.0\<close> has the aligned start 240,
  later than \<open>lastStart = 120\<close>.  It seals the chunk in slot 0 and opens a chunk in
  slot 1, but \<open>lastStart\<close> is still 120 afterwards: the branch for a new chunk
  never assigns it.
\<close>

theorem Add_new_chunk_keeps_lastStart:
  "Add 130 1 store0 = Inr (store_130, [Signal 1 ''m'' 130, Signal 2 ''m'' 130])
   \<and> lastStart store_130 = 120
   \<and> (250 :: u32) - 250 mod chunkSpan store_130 = 240
   \<and> Add 250 2 store_130 = Inr (store_130_250, [Signal 1 ''m'' 250, Signal 2 ''m'' 250])
   \<and> lastStart store_130_250 = 120"
  by (simp add: Add_store0_130 Add_store_130_250) (simp add: store_130_def store_130_250_def)

text \<open>
  C3 (the code at the failing input).  The first sample, with timestamp 100, is
  accepted, and \<open>lastTs\<close> is 0 afterwards, not 100: \<open>Add\<close> never assigns \<open>lastTs\<close>.
\<close>

theorem Add_keeps_lastTs:
  "Add 100 1 store0 = Inr (store_100, [Signal 1 ''m'' 100, Signal 2 ''m'' 100])
   \<and> lastTs store_100 = 0"
  by (simp add: Add_store0_100) (simp add: store_100_def)

text \<open>
  C4 (the code at the failing input).  After the sample with timestamp 130 the
  sample with the earlier timestamp 125 is not rejected: it is pushed into the
  open chunk, behind the point \<open>(130, 1.0)\<close>, and both aggregators are signalled.
\<close>

theorem Add_out_of_order_accepted:
  "Add 130 1 store0 = Inr (store_130, [Signal 1 ''m'' 130, Signal 2 ''m'' 130])
   \<and> Add 125 2 store_130 = Inr (store_130_125, [Signal 1 ''m'' 125, Signal 2 ''m'' 125])
   \<and> chunks store_130 ! 0 = Some \<lparr>T0 = 120, points = [(130, 1)], finished = False\<rparr>
   \<and> chunks store_130_125 ! 0
       = Some \<lparr>T0 = 120, points = [(130, 1), (125, 2)], finished = False\<rparr>"
  by (simp add: Add_store0_130 Add_store_130_125) (simp add: store_130_def store_130_125_def)

text \<open>
  C5 (the code at the failing input).  With \<open>lastStart = 120\<close> the bound
  \<open>lastStart - numChunks * chunkSpan\<close> is \<open>120 - 600\<close>, which wraps to 4294966816 in
  \<^verbatim>\<open>uint32\<close>.  The checked read of \<open>[120, 130)\<close> therefore starts its window at
  4294966816, while the maximum over the integers is 120; it returns the chunk with
  start 600 before the chunk with start 120.
\<close>

theorem GetUnsafe_window_wraps:
  "Add 130 1 store0 = Inr (store_130, [Signal 1 ''m'' 130, Signal 2 ''m'' 130])
   \<and> Add 601 2 store_130 = Inr (store_130_601, [Signal 1 ''m'' 601, Signal 2 ''m'' 601])
   \<and> GetUnsafe_window store_130_601 120 130 = (4294966816, 120)
   \<and> ReadChecked_window_spec store_130_601 120 130 = (120, 120)
   \<and> GetUnsafe store_130_601 120 130 = Some (Inr [Iter 600 [(601, 2)], Iter 120 [(130, 1)]])"
proof -
  have "GetUnsafe_window store_130_601 120 130 = (4294966816, 120)" by code_simp
  moreover have "ReadChecked_window_spec store_130_601 120 130 = (120, 120)"
    by (simp add: ReadChecked_window_spec_def store_130_601_def)
  moreover have "GetUnsafe store_130_601 120 130
      = Some (Inr [Iter 600 [(601, 2)], Iter 120 [(130, 1)]])" by code_simp
  ultimately show ?thesis
    by (simp add: Add_store0_130 Add_store_130_601)
qed

text \<open>
  C6 (the code at the failing input).  The store holds the open chunk with start
  120.  The trusted read of \<open>[130, 131)\<close> asks for exactly that chunk: over the
  integers its window \<open>[120, 120]\<close> is neither before \<open>120 - 600\<close> nor after
  \<open>lastStart = 120\<close>.  The code panics with ``requested a firstStart that is too
  old'', because \<open>120 - 600\<close> wraps.
\<close>

theorem GetSafe_faults_inside_retention:
  "Add 130 1 store0 = Inr (store_130, [Signal 1 ''m'' 130, Signal 2 ''m'' 130])
   \<and> GetSafe store_130 130 131 = Some (Inl PanicTooOld)
   \<and> \<not> ReadTrusted_faults_spec store_130 130 131"
proof -
  have "GetSafe store_130 130 131 = Some (Inl PanicTooOld)" by code_simp
  moreover have "\<not> ReadTrusted_faults_spec store_130 130 131"
    by (simp add: ReadTrusted_faults_spec_def store_130_def)
  ultimately show ?thesis by (simp add: Add_store0_130)
qed

text \<open>
  C7 (the code at the failing input).  The first sample has the aligned start 0,
  so \<open>firstStart\<close> keeps the value 0 that also means ``never written to''.  The
  second call of \<open>Add\<close> takes the branch for the first point again and sets
  \<open>firstStart\<close> to 120.
\<close>

theorem Add_sets_firstStart_twice:
  "Add 100 1 store0 = Inr (store_100, [Signal 1 ''m'' 100, Signal 2 ''m'' 100])
   \<and> firstStart store_100 = 0
   \<and> Add 130 2 store_100 = Inr (store_100_130, [Signal 1 ''m'' 130, Signal 2 ''m'' 130])
   \<and> firstStart store_100_130 = 120"
  by (simp add: Add_store0_100 Add_store_100_130) (simp add: store_100_def store_100_130_def)

text \<open>
  C8 (the code at the failing input).  The store holds the chunk with start 600 in
  slot 0 and the chunk with start 1080 in slot 4, and \<open>firstStart = 600\<close>.  Both
  reads of \<open>[0, 700)\<close> resolve the aligned pair \<open>(0, 600)\<close>.  By the formula the
  slot of the start 0 is \<open>(-600 / 120) mod 5 = 0\<close>, so the candidates are
  \<open>chunks[0..0]\<close> and the result is the iterator of the chunk with start 600.  The
  code subtracts in \<^verbatim>\<open>uint32\<close>: \<open>0 - 600\<close> wraps, the slot is 4, and the read
  returns the chunk with start 1080 before the chunk with start 600.
\<close>

theorem get_slot_before_firstStart:
  "Add 601 1 store0 = Inr (store_601, [Signal 1 ''m'' 601, Signal 2 ''m'' 601])
   \<and> Add 1081 2 store_601 = Inr (store_601_1081, [Signal 1 ''m'' 1081, Signal 2 ''m'' 1081])
   \<and> GetUnsafe_window store_601_1081 0 700 = (0, 600)
   \<and> Select_slot store_601_1081 0 = 0 \<and> Select_slot store_601_1081 600 = 0
   \<and> get_slot store_601_1081 0 = 4 \<and> get_slot store_601_1081 600 = 0
   \<and> Select store_601_1081 0 600 = [Iter 600 [(601, 1)]]
   \<and> get store_601_1081 0 600 = Some (Inr [Iter 1080 [(1081, 2)], Iter 600 [(601, 1)]])
   \<and> GetUnsafe store_601_1081 0 700 = Some (Inr [Iter 1080 [(1081, 2)], Iter 600 [(601, 1)]])
   \<and> GetSafe store_601_1081 0 700 = Some (Inr [Iter 1080 [(1081, 2)], Iter 600 [(601, 1)]])"
proof -
  have "GetUnsafe_window store_601_1081 0 700 = (0, 600)" by code_simp
  moreover have "Select_slot store_601_1081 0 = 0" "Select_slot store_601_1081 600 = 0"
    by (simp_all add: Select_slot_def store_601_1081_def)
  moreover have "get_slot store_601_1081 0 = 4" "get_slot store_601_1081 600 = 0"
    by code_simp+
  moreover have "Select store_601_1081 0 600 = [Iter 600 [(601, 1)]]"
    by (simp add: Select_def Select_candidates_def Select_slot_def Series_Iter_def
        store_601_1081_def)
  moreover have "get store_601_1081 0 600
      = Some (Inr [Iter 1080 [(1081, 2)], Iter 600 [(601, 1)]])" by code_simp
  moreover have "GetUnsafe store_601_1081 0 700
      = Some (Inr [Iter 1080 [(1081, 2)], Iter 600 [(601, 1)]])" by code_simp
  moreover have "GetSafe store_601_1081 0 700
      = Some (Inr [Iter 1080 [(1081, 2)], Iter 600 [(601, 1)]])" by code_simp
  ultimately show ?thesis
    by (simp add: Add_store0_601 Add_store_601_1081)
qed

text \<open>
  C9 (the code at the failing input).  The sample \<open>(130, 1.0)\<close> is delivered twice.
  The second delivery is a duplicate, to be rejected and signalled to no one; the
  code accepts it, pushes the point a second time and calls \<open>Signal\<close> for both
  aggregators again.
\<close>

theorem Add_duplicate_signalled:
  "Add 130 1 store0 = Inr (store_130, [Signal 1 ''m'' 130, Signal 2 ''m'' 130])
   \<and> lastTs store_130 = 0
   \<and> Add 130 1 store_130 = Inr (store_130_130, [Signal 1 ''m'' 130, Signal 2 ''m'' 130])
   \<and> chunks store_130_130 ! 0
       = Some \<lparr>T0 = 120, points = [(130, 1), (130, 1)], finished = False\<rparr>"
  by (simp add: Add_store0_130 Add_store_130_130) (simp add: store_130_def store_130_130_def)

text \<open>
  C10.  In every reachable state of a store built by \<open>NewAggMetric\<close> and for every
  \<open>from < to\<close>, \<open>GetUnsafe\<close> returns a list of iterators, of at most \<open>numChunks\<close>
  elements: it neither panics (no index or slice out of bounds, no nil
  dereference, no division by zero) nor runs forever.
\<close>

theorem GetUnsafe_returns:
  assumes "reachable a" and "from < to"
  shows "\<exists>iters. GetUnsafe a from to = Some (Inr iters) \<and> length iters \<le> unat (numChunks a)
           \<and> numChunks a = 5"
proof -
  from assms(1) have inv: "store_inv a" by (rule reachable_store_inv)
  then have "numChunks a \<noteq> 0" and five: "numChunks a = 5" by (simp_all add: store_inv_def)
  then show ?thesis
    using GetUnsafe_closed_form [OF inv assms(2)] get_iters_length by blast
qed

text \<open>The theorem at the store that holds the chunks with start 120 and 600.\<close>

theorem GetUnsafe_returns_witness:
  "reachable store_130_601 \<and> (120 :: u32) < 130
   \<and> (\<exists>iters. GetUnsafe store_130_601 120 130 = Some (Inr iters)
         \<and> length iters \<le> unat (numChunks store_130_601))"
proof -
  have lt: "(120 :: u32) < 130" by simp
  from GetUnsafe_returns [OF reachable_store_130_601 lt] reachable_store_130_601 lt
  show ?thesis by blast
qed

end
